theory Spec2Isabelle
  imports Complex_Main
begin

section \<open>Data model\<close>

text \<open>
  The projection model of \<^verbatim>\<open>model.py\<close> reads one policy record and one assumption set
  and defines a family of series indexed by the projection month \<open>t = 0 .. T\<close>.

  Conventions of the embedding:
  \<^item> the month index \<open>t\<close> is a natural number (the series are evaluated on \<open>0 .. T\<close>; every
    recursive call of the source is guarded by \<open>t != 0\<close> or by \<open>t < 12\<close>);
  \<^item> Python \<open>int\<close> is \<open>int\<close>; Python \<open>float\<close> is idealised as \<open>real\<close>, so every statement
    below is about exact arithmetic;
  \<^item> an exception of the source is an \<open>Inl\<close> value of type \<open>error + 'a\<close>;
  \<^item> an assumption table is a partial function of a row key and a column key; rows that
    the source addresses by \<open>str(n)\<close> for an integer \<open>n\<close> are indexed by \<open>n\<close> itself;
  \<^item> the memoising evaluator of the host framework is transparent for pure functions and
    is not modelled.
\<close>

datatype error =
    ZeroDivisionError
  | LookupError
  | TypeError
  | IndexError
  | ValueError int

text \<open>
  \<open>ValueError n\<close> is the source's \<open>ValueError(f"Unsupported escalation_type: {n}")\<close>: the
  message is a fixed prefix followed by the offending value, which the constructor carries.
\<close>

record policy =
  age_at_entry :: int
  gender :: int
  initial_guarantee_term :: int
  initial_annuity :: real
  escalation_type :: int
  escalation_rate :: real
  annuity_payment_frequency :: int
  duration_IF :: int

type_synonym int_table = "int \<Rightarrow> string \<Rightarrow> real option"
type_synonym str_table = "string \<Rightarrow> string \<Rightarrow> real option"

record assumption =
  max_mortality_age :: int
  mortality_base_table :: int_table
  mortality_overlay :: str_table
  expense :: str_table
  inflation_forward :: int_table
  yield_curve_forward :: int_table
  investment_expense :: real

subsection \<open>Python primitives\<close>

text \<open>\<open>tbl.get_value(row, col)\<close>: fails when the key is absent.\<close>

definition get_value :: "('k \<Rightarrow> string \<Rightarrow> real option) \<Rightarrow> 'k \<Rightarrow> string \<Rightarrow> error + real" where
  "get_value tbl row col = (case tbl row col of None \<Rightarrow> Inl LookupError | Some v \<Rightarrow> Inr v)"

text \<open>\<open>int(x)\<close> of a float truncates towards zero.\<close>

definition py_int :: "real \<Rightarrow> int" where
  "py_int x = (if 0 \<le> x then \<lfloor>x\<rfloor> else \<lceil>x\<rceil>)"

text \<open>\<open>a // b\<close> and \<open>a % b\<close> on integers: floor division, \<open>ZeroDivisionError\<close> on \<open>b = 0\<close>.\<close>

definition py_floordiv :: "int \<Rightarrow> int \<Rightarrow> error + int" where
  "py_floordiv a b = (if b = 0 then Inl ZeroDivisionError else Inr (a div b))"

definition py_mod :: "int \<Rightarrow> int \<Rightarrow> error + int" where
  "py_mod a b = (if b = 0 then Inl ZeroDivisionError else Inr (a mod b))"

text \<open>\<open>a / b\<close> with an integer divisor: true division, \<open>ZeroDivisionError\<close> on \<open>b = 0\<close>.\<close>

definition py_truediv :: "real \<Rightarrow> int \<Rightarrow> error + real" where
  "py_truediv a b = (if b = 0 then Inl ZeroDivisionError else Inr (a / real_of_int b))"

text \<open>
  \<open>x ** (1 / 12)\<close>: the twelfth root of a non-negative base. For a negative base Python
  returns a complex number, which no later step accepts as a number of the series
  (\<open>min\<close> raises \<open>TypeError\<close> when it compares it); that failure is the \<open>Inl\<close> value
  here, and \<open>death_rate\<close> lets it surface after the overlay lookup, where \<open>min\<close> is called.
\<close>

definition pow_twelfth :: "real \<Rightarrow> error + real" where
  "pow_twelfth x = (if x < 0 then Inl TypeError else Inr (root 12 x))"

section \<open>Policy variables\<close>

text \<open>
  The accessors \<open>age_at_entry()\<close>, \<open>gender()\<close>, ... of the source return the fields of the
  policy record; they are the record selectors. The column key
  \<open>"male" if gender() == 0 else "female"\<close> is \<open>sex_column\<close>.
\<close>

definition sex_column :: "policy \<Rightarrow> string" where
  "sex_column p = (if gender p = 0 then ''male'' else ''female'')"

definition mortality_overlay_factor :: "policy \<Rightarrow> assumption \<Rightarrow> error + real" where
  "mortality_overlay_factor p a = get_value (mortality_overlay a) ''annuity'' (sex_column p)"

definition base_renewal_expense :: "assumption \<Rightarrow> error + real" where
  "base_renewal_expense a = get_value (expense a) ''annuity'' ''renewal_expense''"

definition renewal_expense_inflation_margin :: "assumption \<Rightarrow> error + real" where
  "renewal_expense_inflation_margin a = get_value (expense a) ''annuity'' ''inflation_margin''"

definition initial_annuity_per_payment_period :: "policy \<Rightarrow> error + real" where
  "initial_annuity_per_payment_period p =
     py_truediv (initial_annuity p) (annuity_payment_frequency p)"

section \<open>Mortality and survival\<close>

fun current_age :: "policy \<Rightarrow> nat \<Rightarrow> int" where
  "current_age p t =
     (if t < 12
      then py_int (real_of_int (age_at_entry p) + real_of_int (duration_IF p + int t) / 12)
      else current_age p (t - 12) + 1)"

declare current_age.simps [simp del]

fun death_rate :: "policy \<Rightarrow> assumption \<Rightarrow> nat \<Rightarrow> error + real" where
  "death_rate p a t =
     (if t \<noteq> 0 \<and> current_age p t = current_age p (t - 1) then death_rate p a (t - 1)
      else if current_age p t \<le> max_mortality_age a then
        (case get_value (mortality_base_table a) (current_age p t) (sex_column p) of
           Inl e \<Rightarrow> Inl e
         | Inr q_x \<Rightarrow>
            (case pow_twelfth (1 - q_x) of
               Inl e \<Rightarrow>
                 (case mortality_overlay_factor p a of
                    Inl e' \<Rightarrow> Inl e'
                  | Inr f \<Rightarrow> Inl e)
             | Inr r \<Rightarrow>
                 (case mortality_overlay_factor p a of
                    Inl e' \<Rightarrow> Inl e'
                  | Inr f \<Rightarrow> Inr (min 1 ((1 - r) * f)))))
      else Inr 1)"

declare death_rate.simps [simp del]

fun expected_number_of_policies_IF :: "policy \<Rightarrow> assumption \<Rightarrow> nat \<Rightarrow> error + real" where
  "expected_number_of_policies_IF p a t =
     (if t = 0 then Inr 1
      else
        (case expected_number_of_policies_IF p a (t - 1) of
           Inl e \<Rightarrow> Inl e
         | Inr prev \<Rightarrow>
            (case death_rate p a (t - 1) of
               Inl e \<Rightarrow> Inl e
             | Inr d \<Rightarrow> Inr (prev * (1 - d)))))"

declare expected_number_of_policies_IF.simps [simp del]

section \<open>Guarantee period\<close>

text \<open>
  Python's \<open>and\<close> evaluates its right operand only when the left one holds; the
  congruence rule lets the recursive call below see \<open>t \<noteq> 0\<close>.
\<close>

declare conj_cong [fundef_cong]

fun within_guarantee_period :: "policy \<Rightarrow> nat \<Rightarrow> int" where
  "within_guarantee_period p t =
     (if t \<noteq> 0 \<and> within_guarantee_period p (t - 1) = 0 then 0
      else (if duration_IF p + int t < initial_guarantee_term p then 1 else 0))"

declare within_guarantee_period.simps [simp del]

text \<open>The precomputed array over \<open>range(projection_length + 1)\<close>; \<open>T\<close> is the horizon.\<close>

definition within_guarantee_period_array :: "policy \<Rightarrow> nat \<Rightarrow> int list" where
  "within_guarantee_period_array p T =
     map (\<lambda>t. if duration_IF p + int t < initial_guarantee_term p then 1 else 0) [0..<T + 1]"

section \<open>Annuity benefits\<close>

text \<open>The locals \<open>payment_interval\<close> and \<open>is_payment_month\<close> of the source.\<close>

definition payment_interval :: "policy \<Rightarrow> error + int" where
  "payment_interval p = py_floordiv 12 (annuity_payment_frequency p)"

definition is_payment_month :: "policy \<Rightarrow> nat \<Rightarrow> error + bool" where
  "is_payment_month p t =
     (case payment_interval p of
        Inl e \<Rightarrow> Inl e
      | Inr k \<Rightarrow>
         (case py_mod (duration_IF p + int t) k of
            Inl e \<Rightarrow> Inl e
          | Inr r \<Rightarrow> Inr (r = 0)))"

fun annuity_payment_per_policy :: "policy \<Rightarrow> assumption \<Rightarrow> nat \<Rightarrow> error + real" where
  "annuity_payment_per_policy p a t =
     (case is_payment_month p t of
        Inl e \<Rightarrow> Inl e
      | Inr pm \<Rightarrow>
          if \<not> pm then Inr 0
          else if escalation_type p = 0 then
            py_truediv (initial_annuity p) (annuity_payment_frequency p)
          else if escalation_type p = 1 then
            (if t < 12 then initial_annuity_per_payment_period p
             else
               (case annuity_payment_per_policy p a (t - 12) of
                  Inl e \<Rightarrow> Inl e
                | Inr previous_payment \<Rightarrow> Inr (previous_payment * (1 + escalation_rate p))))
          else if escalation_type p = 2 then
            (if t < 12 then initial_annuity_per_payment_period p
             else
               (case annuity_payment_per_policy p a (t - 12) of
                  Inl e \<Rightarrow> Inl e
                | Inr previous_payment \<Rightarrow>
                   (case get_value (inflation_forward a) (int t - 12) ''rate'' of
                      Inl e \<Rightarrow> Inl e
                    | Inr inflation \<Rightarrow> Inr (previous_payment * (1 + inflation)))))
          else Inl (ValueError (escalation_type p)))"

declare annuity_payment_per_policy.simps [simp del]

definition expected_annuity_payment :: "policy \<Rightarrow> assumption \<Rightarrow> nat \<Rightarrow> error + real" where
  "expected_annuity_payment p a t =
     (if within_guarantee_period p t \<noteq> 0 then annuity_payment_per_policy p a t
      else
        (case annuity_payment_per_policy p a t of
           Inl e \<Rightarrow> Inl e
         | Inr x \<Rightarrow>
            (case expected_number_of_policies_IF p a t of
               Inl e \<Rightarrow> Inl e
             | Inr n \<Rightarrow> Inr (x * n))))"

section \<open>Renewal and investment expenses\<close>

fun renewal_expense_per_policy :: "policy \<Rightarrow> assumption \<Rightarrow> nat \<Rightarrow> error + real" where
  "renewal_expense_per_policy p a t =
     (if (duration_IF p + int t) mod 12 \<noteq> 0 then Inr 0
      else if t < 12 then base_renewal_expense a
      else
        (case renewal_expense_per_policy p a (t - 12) of
           Inl e \<Rightarrow> Inl e
         | Inr previous_expense \<Rightarrow>
            (case get_value (inflation_forward a) (int t - 12) ''rate'' of
               Inl e \<Rightarrow> Inl e
             | Inr inflation \<Rightarrow>
                (case renewal_expense_inflation_margin a of
                   Inl e \<Rightarrow> Inl e
                 | Inr margin \<Rightarrow> Inr (previous_expense * (1 + inflation + margin))))))"

declare renewal_expense_per_policy.simps [simp del]

definition expected_renewal_expense_payment :: "policy \<Rightarrow> assumption \<Rightarrow> nat \<Rightarrow> error + real" where
  "expected_renewal_expense_payment p a t =
     (case renewal_expense_per_policy p a t of
        Inl e \<Rightarrow> Inl e
      | Inr x \<Rightarrow>
         (case expected_number_of_policies_IF p a t of
            Inl e \<Rightarrow> Inl e
          | Inr n \<Rightarrow> Inr (x * n)))"

section \<open>Discounted values\<close>

text \<open>
  A variable called without an argument yields its whole series over \<open>0 .. T\<close>, where
  \<open>T\<close> is \<open>settings["T_MAX_CALCULATION"]\<close>; the first month that raises aborts the run.
\<close>

fun collect :: "(error + 'a) list \<Rightarrow> error + 'a list" where
  "collect [] = Inr []"
| "collect (x # xs) =
     (case x of
        Inl e \<Rightarrow> Inl e
      | Inr v \<Rightarrow> (case collect xs of Inl e \<Rightarrow> Inl e | Inr vs \<Rightarrow> Inr (v # vs)))"

definition series :: "nat \<Rightarrow> (nat \<Rightarrow> error + 'a) \<Rightarrow> error + 'a list" where
  "series T f = collect (map f [0..<T + 1])"

text \<open>Reading one month of an array variable, \<open>X(t)\<close>.\<close>

definition array_at :: "'a list \<Rightarrow> nat \<Rightarrow> error + 'a" where
  "array_at xs t = (if t < length xs then Inr (xs ! t) else Inl IndexError)"

text \<open>The sum of two array variables is the pointwise sum of two arrays of length \<open>T + 1\<close>.\<close>

definition array_add :: "real list \<Rightarrow> real list \<Rightarrow> real list" where
  "array_add xs ys = map2 (+) xs ys"

definition discount_rate :: "assumption \<Rightarrow> nat \<Rightarrow> error + real list" where
  "discount_rate a T =
     series T (\<lambda>t.
       case get_value (yield_curve_forward a) (int t) ''rate'' of
         Inl e \<Rightarrow> Inl e
       | Inr y \<Rightarrow> pow_twelfth (1 + y))"

text \<open>
  Modelled from the spec: the discounting primitive \<open>discount\<close> is imported from the host
  framework and is not part of the source. Its contract, for two sequences of equal
  length: \<open>pv[t]\<close> is the sum over \<open>s \<ge> t\<close> of \<open>cf[s]\<close> divided by the product of
  \<open>df[k]\<close> for \<open>k = t .. s\<close>.
\<close>

definition discount :: "real list \<Rightarrow> real list \<Rightarrow> real list" where
  "discount cf df =
     map (\<lambda>t. sum_list (map (\<lambda>s. cf ! s / prod_list (map (\<lambda>k. df ! k) [t..<s + 1]))
                          [t..<length cf]))
         [0..<length cf]"

definition EPV_annuity_benefit :: "policy \<Rightarrow> assumption \<Rightarrow> nat \<Rightarrow> error + real list" where
  "EPV_annuity_benefit p a T =
     (case series T (expected_annuity_payment p a) of
        Inl e \<Rightarrow> Inl e
      | Inr cf \<Rightarrow> (case discount_rate a T of Inl e \<Rightarrow> Inl e | Inr df \<Rightarrow> Inr (discount cf df)))"

definition EPV_renewal_expenses :: "policy \<Rightarrow> assumption \<Rightarrow> nat \<Rightarrow> error + real list" where
  "EPV_renewal_expenses p a T =
     (case series T (expected_renewal_expense_payment p a) of
        Inl e \<Rightarrow> Inl e
      | Inr cf \<Rightarrow> (case discount_rate a T of Inl e \<Rightarrow> Inl e | Inr df \<Rightarrow> Inr (discount cf df)))"

definition EPV_liability_gross :: "policy \<Rightarrow> assumption \<Rightarrow> nat \<Rightarrow> error + real list" where
  "EPV_liability_gross p a T =
     (case EPV_annuity_benefit p a T of
        Inl e \<Rightarrow> Inl e
      | Inr b \<Rightarrow>
         (case EPV_renewal_expenses p a T of Inl e \<Rightarrow> Inl e | Inr r \<Rightarrow> Inr (array_add b r)))"

definition investment_expense_payment :: "policy \<Rightarrow> assumption \<Rightarrow> nat \<Rightarrow> nat \<Rightarrow> error + real" where
  "investment_expense_payment p a T t =
     (let investment_expense_rate = investment_expense a in
      case EPV_liability_gross p a T of
        Inl e \<Rightarrow> Inl e
      | Inr g \<Rightarrow>
         (case array_at g t of
            Inl e \<Rightarrow> Inl e
          | Inr v \<Rightarrow> Inr (v * investment_expense_rate)))"

definition EPV_investment_expenses :: "policy \<Rightarrow> assumption \<Rightarrow> nat \<Rightarrow> error + real list" where
  "EPV_investment_expenses p a T =
     (case series T (investment_expense_payment p a T) of
        Inl e \<Rightarrow> Inl e
      | Inr cf \<Rightarrow> (case discount_rate a T of Inl e \<Rightarrow> Inl e | Inr df \<Rightarrow> Inr (discount cf df)))"

definition EPV_total_expenses :: "policy \<Rightarrow> assumption \<Rightarrow> nat \<Rightarrow> error + real list" where
  "EPV_total_expenses p a T =
     (case EPV_renewal_expenses p a T of
        Inl e \<Rightarrow> Inl e
      | Inr r \<Rightarrow>
         (case EPV_investment_expenses p a T of Inl e \<Rightarrow> Inl e | Inr i \<Rightarrow> Inr (array_add r i)))"

definition EPV_liability :: "policy \<Rightarrow> assumption \<Rightarrow> nat \<Rightarrow> error + real list" where
  "EPV_liability p a T =
     (case EPV_annuity_benefit p a T of
        Inl e \<Rightarrow> Inl e
      | Inr b \<Rightarrow>
         (case EPV_total_expenses p a T of Inl e \<Rightarrow> Inl e | Inr x \<Rightarrow> Inr (array_add b x)))"

definition liability :: "policy \<Rightarrow> assumption \<Rightarrow> nat \<Rightarrow> error + real" where
  "liability p a T =
     (case EPV_liability p a T of Inl e \<Rightarrow> Inl e | Inr l \<Rightarrow> array_at l 0)"

section \<open>Reference definitions and inputs\<close>

text \<open>
  The direct recomputation of the monthly rate at month \<open>t\<close>, in the words of the
  specification: look up \<open>q\<^sub>x\<close> at \<open>current_age(t)\<close>, and return
  \<open>min(1, (1 - (1 - q\<^sub>x)^(1/12)) * mortality_overlay_factor)\<close>. It never looks at month
  \<open>t - 1\<close>.
\<close>

definition death_rate_direct :: "policy \<Rightarrow> assumption \<Rightarrow> nat \<Rightarrow> error + real" where
  "death_rate_direct p a t =
     (case get_value (mortality_base_table a) (current_age p t) (sex_column p) of
        Inl e \<Rightarrow> Inl e
      | Inr q_x \<Rightarrow>
         (case mortality_overlay_factor p a of
            Inl e \<Rightarrow> Inl e
          | Inr f \<Rightarrow>
             (case pow_twelfth (1 - q_x) of
                Inl e \<Rightarrow> Inl e
              | Inr r \<Rightarrow> Inr (min 1 ((1 - r) * f)))))"

text \<open>
  The input domain on which mortality is a probability: at the age reached in month \<open>s\<close>,
  when the table is consulted at all, the annual rate is present and lies in \<open>[0, 1]\<close> and
  the overlay factor is present and not negative.
\<close>

definition mortality_inputs_valid :: "policy \<Rightarrow> assumption \<Rightarrow> nat \<Rightarrow> bool" where
  "mortality_inputs_valid p a s =
     (current_age p s \<le> max_mortality_age a \<longrightarrow>
        (case mortality_base_table a (current_age p s) (sex_column p) of
           None \<Rightarrow> False
         | Some q \<Rightarrow> 0 \<le> q \<and> q \<le> 1) \<and>
        (case mortality_overlay a ''annuity'' (sex_column p) of
           None \<Rightarrow> False
         | Some f \<Rightarrow> 0 \<le> f))"

text \<open>
  A policy and an assumption set for concrete evaluations: a man aged 65 at commencement,
  valued at commencement, 1200 a year paid annually with a fixed escalation of 3 percent
  and a guarantee of 24 months.
\<close>

definition example_policy :: policy where
  "example_policy =
     \<lparr>age_at_entry = 65, gender = 0, initial_guarantee_term = 24, initial_annuity = 1200,
      escalation_type = 1, escalation_rate = 3 / 100, annuity_payment_frequency = 1,
      duration_IF = 0\<rparr>"

definition example_assumption :: assumption where
  "example_assumption =
     \<lparr>max_mortality_age = 110,
      mortality_base_table = (\<lambda>age col. if age \<le> 65 then Some 0 else Some 1),
      mortality_overlay = (\<lambda>row col. Some 1),
      expense = (\<lambda>row col. if col = ''renewal_expense'' then Some 10 else Some 0),
      inflation_forward = (\<lambda>row col. Some 0),
      yield_curve_forward = (\<lambda>row col. Some 0),
      investment_expense = 1 / 100\<rparr>"

text \<open>The same assumptions with certain death in the table and an overlay factor of \<open>-1\<close>.\<close>

definition negative_overlay_assumption :: assumption where
  "negative_overlay_assumption =
     example_assumption
       \<lparr>mortality_base_table := (\<lambda>age col. Some 1),
        mortality_overlay := (\<lambda>row col. Some (- 1))\<rparr>"

section \<open>Age\<close>

lemma py_int_mono: "x \<le> y \<Longrightarrow> py_int x \<le> py_int y"
proof -
  assume le: "x \<le> y"
  consider "0 \<le> x" | "x < 0" "0 \<le> y" | "x < 0" "y < 0" by linarith
  then show ?thesis
  proof cases
    case 1
    with le show ?thesis by (simp add: py_int_def floor_mono)
  next
    case 2
    then have "\<lceil>x\<rceil> \<le> 0" "0 \<le> \<lfloor>y\<rfloor>" by (simp_all add: ceiling_le_iff)
    then have "\<lceil>x\<rceil> \<le> \<lfloor>y\<rfloor>" by linarith
    with 2 show ?thesis by (simp add: py_int_def)
  next
    case 3
    with le show ?thesis by (simp add: py_int_def ceiling_mono)
  qed
qed

lemma py_int_add_one: "py_int (x + 1) \<le> py_int x + 1"
  unfolding py_int_def by (auto simp: not_le)

lemma current_age_base:
  "t < 12 \<Longrightarrow> current_age p t =
     py_int (real_of_int (age_at_entry p) + real_of_int (duration_IF p + int t) / 12)"
  by (subst current_age.simps) simp

lemma current_age_rec: "12 \<le> t \<Longrightarrow> current_age p t = current_age p (t - 12) + 1"
  by (subst current_age.simps) simp

lemma current_age_Suc: "current_age p t \<le> current_age p (Suc t)"
proof (induction t rule: less_induct)
  case (less t)
  consider "Suc t < 12" | "t = 11" | "12 \<le> t" by linarith
  then show ?case
  proof cases
    case 1
    then show ?thesis by (simp add: current_age_base py_int_mono)
  next
    case 2
    let ?x = "real_of_int (age_at_entry p) + real_of_int (duration_IF p) / 12"
    have "current_age p 11 = py_int (?x + 11 / 12)"
      by (simp add: current_age_base add_divide_distrib add.assoc)
    also have "\<dots> \<le> py_int (?x + 1)" by (rule py_int_mono) simp
    also have "\<dots> \<le> py_int ?x + 1" by (rule py_int_add_one)
    also have "\<dots> = current_age p 12" by (simp add: current_age_rec current_age_base)
    finally show ?thesis using 2 by simp
  next
    case 3
    then have "current_age p (t - 12) \<le> current_age p (Suc (t - 12))"
      using less.IH [of "t - 12"] by simp
    moreover have "Suc t - 12 = Suc (t - 12)" using 3 by simp
    ultimately show ?thesis
      using 3 by (simp add: current_age_rec [of t] current_age_rec [of "Suc t"])
  qed
qed

text \<open>
  C8. The age is an integer (by its type), never decreases from one month to the next
  and grows by exactly one over any twelve months; a policy that starts at age 65 with no
  elapsed duration has age 65 in the months 0 to 11 and age 66 in month 12.
\<close>

theorem current_age_yearly_step:
  "current_age p (t + 12) = current_age p t + 1 \<and>
   current_age p t \<le> current_age p (t + 1) \<and>
   (age_at_entry p = 65 \<and> duration_IF p = 0 \<longrightarrow>
      (\<forall>s<12. current_age p s = 65) \<and> current_age p 12 = 66)"
proof (intro conjI impI allI)
  show "current_age p (t + 12) = current_age p t + 1"
    by (simp add: current_age_rec)
  show "current_age p t \<le> current_age p (t + 1)"
    using current_age_Suc [of p t] by simp
next
  fix s :: nat
  assume h: "age_at_entry p = 65 \<and> duration_IF p = 0" and s: "s < 12"
  have "0 \<le> real s / 12" "real s / 12 < 1" using s by simp_all
  then have "\<lfloor>65 + real s / 12\<rfloor> = 65" by linarith
  with h s show "current_age p s = 65"
    by (simp add: current_age_base py_int_def)
next
  assume h: "age_at_entry p = 65 \<and> duration_IF p = 0"
  then show "current_age p 12 = 66"
    by (simp add: current_age_rec current_age_base py_int_def)
qed

theorem current_age_yearly_step_witness:
  "age_at_entry example_policy = 65 \<and> duration_IF example_policy = 0 \<and>
   current_age example_policy 11 = 65 \<and> current_age example_policy 12 = 66 \<and>
   current_age example_policy 23 = current_age example_policy 11 + 1 \<and>
   current_age example_policy 11 \<le> current_age example_policy 12"
  using current_age_yearly_step [of example_policy 11]
  by (simp add: example_policy_def)

section \<open>Mortality\<close>

lemma death_rate_direct_age:
  "current_age p s = current_age p t \<Longrightarrow> death_rate_direct p a s = death_rate_direct p a t"
  by (simp add: death_rate_direct_def)

lemma death_rate_body:
  "(case get_value (mortality_base_table a) x (sex_column p) of
           Inl e \<Rightarrow> Inl e
         | Inr q_x \<Rightarrow>
            (case pow_twelfth (1 - q_x) of
               Inl e \<Rightarrow>
                 (case mortality_overlay_factor p a of
                    Inl e' \<Rightarrow> Inl e'
                  | Inr f \<Rightarrow> Inl e)
             | Inr r \<Rightarrow>
                 (case mortality_overlay_factor p a of
                    Inl e' \<Rightarrow> Inl e'
                  | Inr f \<Rightarrow> Inr (min 1 ((1 - r) * f))))) =
   (case get_value (mortality_base_table a) x (sex_column p) of
        Inl e \<Rightarrow> Inl e
      | Inr q_x \<Rightarrow>
         (case mortality_overlay_factor p a of
            Inl e \<Rightarrow> Inl e
          | Inr f \<Rightarrow>
             (case pow_twelfth (1 - q_x) of
                Inl e \<Rightarrow> Inl e
              | Inr r \<Rightarrow> Inr (min 1 ((1 - r) * f)))))"
  by (simp split: sum.splits)

lemma death_rate_unfold:
  "death_rate p a t =
     (if current_age p t \<le> max_mortality_age a then death_rate_direct p a t else Inr 1)"
proof (induction t)
  case 0
  show ?case
    by (subst death_rate.simps) (simp add: death_rate_direct_def death_rate_body)
next
  case (Suc t)
  show ?case
  proof (cases "current_age p (Suc t) = current_age p t")
    case True
    then have "death_rate p a (Suc t) = death_rate p a t"
      by (subst death_rate.simps) simp
    with Suc True show ?thesis
      by (simp add: death_rate_direct_age [of p "Suc t" t])
  next
    case False
    then show ?thesis
      by (subst death_rate.simps) (simp add: death_rate_direct_def death_rate_body)
  qed
qed

lemma monthly_rate_bounds:
  assumes "0 \<le> q" "q \<le> 1" "0 \<le> f"
  shows "0 \<le> min 1 ((1 - root 12 (1 - q)) * f)"
proof -
  have "root 12 (1 - q) \<le> root 12 1"
    using assms by (intro real_root_le_mono) simp_all
  then have "0 \<le> 1 - root 12 (1 - q)" by simp
  with assms show ?thesis by simp
qed

lemma death_rate_direct_le_one: "death_rate_direct p a t = Inr r \<Longrightarrow> r \<le> 1"
  by (auto simp: death_rate_direct_def split: sum.splits)

lemma death_rate_direct_valid:
  assumes "mortality_inputs_valid p a t" "current_age p t \<le> max_mortality_age a"
  shows "\<exists>r. death_rate_direct p a t = Inr r \<and> 0 \<le> r \<and> r \<le> 1"
proof -
  from assms obtain q f where
    q: "mortality_base_table a (current_age p t) (sex_column p) = Some q" "0 \<le> q" "q \<le> 1"
    and f: "mortality_overlay a ''annuity'' (sex_column p) = Some f" "0 \<le> f"
    by (auto simp: mortality_inputs_valid_def split: option.splits)
  have "death_rate_direct p a t = Inr (min 1 ((1 - root 12 (1 - q)) * f))"
    using q f by (simp add: death_rate_direct_def get_value_def mortality_overlay_factor_def
        pow_twelfth_def)
  with monthly_rate_bounds [OF q(2,3) f(2)] show ?thesis by simp
qed

lemma death_rate_valid:
  assumes "mortality_inputs_valid p a t"
  shows "\<exists>r. death_rate p a t = Inr r \<and> 0 \<le> r \<and> r \<le> 1"
  using death_rate_direct_valid [OF assms] by (simp add: death_rate_unfold)

lemma ex_age [simp]: "t < 12 \<Longrightarrow> current_age example_policy t = 65"
proof -
  assume s: "t < 12"
  have "0 \<le> real t / 12" "real t / 12 < 1" using s by simp_all
  then have "\<lfloor>65 + real t / 12\<rfloor> = 65" by linarith
  then show ?thesis using s by (simp add: current_age_base py_int_def example_policy_def)
qed

lemma example_inputs_valid: "mortality_inputs_valid example_policy example_assumption s"
  by (simp add: mortality_inputs_valid_def example_assumption_def)

lemma ex_age_12: "current_age example_policy 12 = 66"
  by (simp add: current_age_rec)

lemma ex_dr_lt: "t < 12 \<Longrightarrow> death_rate example_policy example_assumption t = Inr 0"
  by (simp add: death_rate_unfold death_rate_direct_def example_assumption_def
     get_value_def mortality_overlay_factor_def pow_twelfth_def)

lemma ex_dr_12: "death_rate example_policy example_assumption 12 = Inr 1"
  by (simp add: death_rate_unfold death_rate_direct_def ex_age_12 example_assumption_def
     get_value_def mortality_overlay_factor_def pow_twelfth_def)

text \<open>
  C1 (amended). Whatever the inputs, a death rate that is returned is at most 1, and it is
  exactly 1 once the age exceeds \<open>max_mortality_age\<close>, regardless of the overlay factor.
  It is returned and lies in \<open>[0, 1]\<close> when the inputs are valid at month \<open>t\<close>: the
  source caps the rate from above only.
\<close>

theorem death_rate_range:
  "(\<forall>r. death_rate p a t = Inr r \<longrightarrow> r \<le> 1) \<and>
   (max_mortality_age a < current_age p t \<longrightarrow> death_rate p a t = Inr 1) \<and>
   (mortality_inputs_valid p a t \<longrightarrow> (\<exists>r. death_rate p a t = Inr r \<and> 0 \<le> r \<and> r \<le> 1))"
  using death_rate_valid [of p a t]
  by (auto simp: death_rate_unfold dest: death_rate_direct_le_one)

theorem death_rate_range_witness:
  "mortality_inputs_valid example_policy example_assumption 3 \<and>
   death_rate example_policy example_assumption 3 = Inr 0 \<and>
   max_mortality_age (example_assumption\<lparr>max_mortality_age := 60\<rparr>)
     < current_age example_policy 3 \<and>
   death_rate example_policy (example_assumption\<lparr>max_mortality_age := 60\<rparr>) 3 = Inr 1"
  using death_rate_range [of example_policy example_assumption 3]
    death_rate_range [of example_policy "example_assumption\<lparr>max_mortality_age := 60\<rparr>" 3]
  by (simp add: death_rate_unfold death_rate_direct_def mortality_inputs_valid_def example_assumption_def
     get_value_def mortality_overlay_factor_def pow_twelfth_def)

text \<open>
  With certain death in the table and an overlay factor of \<open>-1\<close> the rate of month 0 is
  \<open>-1\<close>, below the range \<open>[0, 1]\<close>.
\<close>

theorem death_rate_range_counterexample:
  "death_rate example_policy negative_overlay_assumption 0 = Inr (- 1) \<and> \<not> (0::real) \<le> - 1"
  by (simp add: death_rate.simps negative_overlay_assumption_def example_assumption_def
     get_value_def mortality_overlay_factor_def pow_twelfth_def)

text \<open>
  C10. The short-circuit through month \<open>t - 1\<close> is a pure optimisation: while the age
  does not exceed \<open>max_mortality_age\<close>, the rate of month \<open>t\<close> is the direct
  recomputation at \<open>t\<close>, failures included.
\<close>

theorem death_rate_short_circuit:
  "current_age p t \<le> max_mortality_age a \<Longrightarrow> death_rate p a t = death_rate_direct p a t"
  by (simp add: death_rate_unfold)

theorem death_rate_short_circuit_witness:
  "current_age example_policy 3 \<le> max_mortality_age example_assumption \<and>
   death_rate example_policy example_assumption 3 = Inr 0 \<and>
   death_rate_direct example_policy example_assumption 3 = Inr 0"
  using death_rate_short_circuit [of example_policy 3 example_assumption]
  by (simp add: death_rate.simps death_rate_direct_def example_assumption_def
     get_value_def mortality_overlay_factor_def pow_twelfth_def)

section \<open>Survivorship\<close>

lemma IF_0: "expected_number_of_policies_IF p a 0 = Inr 1"
  by (subst expected_number_of_policies_IF.simps) simp

lemma IF_Suc:
  "expected_number_of_policies_IF p a (Suc t) =
     (case expected_number_of_policies_IF p a t of
        Inl e \<Rightarrow> Inl e
      | Inr prev \<Rightarrow>
         (case death_rate p a t of Inl e \<Rightarrow> Inl e | Inr d \<Rightarrow> Inr (prev * (1 - d))))"
  by (subst expected_number_of_policies_IF.simps) (simp cong: sum.case_cong)

lemma IF_valid:
  "(\<And>s. s < t \<Longrightarrow> mortality_inputs_valid p a s) \<Longrightarrow>
   \<exists>v. expected_number_of_policies_IF p a t = Inr v \<and> 0 \<le> v \<and> v \<le> 1"
proof (induction t)
  case 0
  show ?case by (simp add: IF_0)
next
  case (Suc t)
  then obtain v where v: "expected_number_of_policies_IF p a t = Inr v" "0 \<le> v" "v \<le> 1"
    by auto
  from Suc.prems obtain d where d: "death_rate p a t = Inr d" "0 \<le> d" "d \<le> 1"
    using death_rate_valid [of p a t] by auto
  have "0 \<le> v * (1 - d)" using v d by simp
  moreover have "v * (1 - d) \<le> 1" using v d by (simp add: mult_le_one)
  ultimately show ?case using v d by (simp add: IF_Suc)
qed

lemma ex_IF_le_12:
  "t \<le> 12 \<Longrightarrow> expected_number_of_policies_IF example_policy example_assumption t = Inr 1"
  by (induction t) (simp_all add: IF_0 IF_Suc ex_dr_lt)

text \<open>
  C2 (amended). The expected number of policies in force is exactly 1 in month 0. When the
  mortality inputs are valid in the months \<open>0 .. t\<close>, the values of months \<open>t\<close> and
  \<open>t + 1\<close> are returned, lie in \<open>[0, 1]\<close>, and the later one is not larger.
\<close>

theorem policies_IF_decreasing:
  "expected_number_of_policies_IF p a 0 = Inr 1 \<and>
   ((\<forall>s\<le>t. mortality_inputs_valid p a s) \<longrightarrow>
      (\<exists>v w. expected_number_of_policies_IF p a t = Inr v \<and>
             expected_number_of_policies_IF p a (t + 1) = Inr w \<and>
             w \<le> v \<and> 0 \<le> v \<and> v \<le> 1 \<and> 0 \<le> w \<and> w \<le> 1))"
proof (intro conjI impI)
  show "expected_number_of_policies_IF p a 0 = Inr 1" by (rule IF_0)
next
  assume h: "\<forall>s\<le>t. mortality_inputs_valid p a s"
  then obtain v where v: "expected_number_of_policies_IF p a t = Inr v" "0 \<le> v" "v \<le> 1"
    using IF_valid [of t p a] by auto
  from h obtain d where d: "death_rate p a t = Inr d" "0 \<le> d" "d \<le> 1"
    using death_rate_valid [of p a t] by auto
  have "v * (1 - d) \<le> v" using v d by (simp add: mult_left_le)
  moreover have "0 \<le> v * (1 - d)" using v d by simp
  moreover have "v * (1 - d) \<le> 1" using v d by (simp add: mult_le_one)
  ultimately show "\<exists>v w. expected_number_of_policies_IF p a t = Inr v \<and>
             expected_number_of_policies_IF p a (t + 1) = Inr w \<and>
             w \<le> v \<and> 0 \<le> v \<and> v \<le> 1 \<and> 0 \<le> w \<and> w \<le> 1"
    using v d by (simp add: IF_Suc)
qed

theorem policies_IF_decreasing_witness:
  "expected_number_of_policies_IF example_policy example_assumption 12 = Inr 1 \<and>
   expected_number_of_policies_IF example_policy example_assumption 13 = Inr 0 \<and>
   death_rate example_policy example_assumption 12 = Inr 1"
proof -
  have "13 = Suc 12" by simp
  then have "expected_number_of_policies_IF example_policy example_assumption 13 = Inr 0"
    by (simp only: IF_Suc ex_IF_le_12 [of 12] ex_dr_12) simp
  then show ?thesis
    using policies_IF_decreasing [of example_policy example_assumption 12] example_inputs_valid
    by (simp add: ex_IF_le_12 ex_dr_12)
qed

text \<open>
  With certain death in the table and an overlay factor of \<open>-1\<close> the series rises from
  1 in month 0 to 2 in month 1.
\<close>

theorem policies_IF_decreasing_counterexample:
  "expected_number_of_policies_IF example_policy negative_overlay_assumption 0 = Inr 1 \<and>
   expected_number_of_policies_IF example_policy negative_overlay_assumption 1 = Inr 2"
  by (simp add: expected_number_of_policies_IF.simps death_rate.simps
     negative_overlay_assumption_def example_assumption_def
     get_value_def mortality_overlay_factor_def pow_twelfth_def)

section \<open>Guarantee flag\<close>

lemma wgp_0:
  "within_guarantee_period p 0 = (if duration_IF p < initial_guarantee_term p then 1 else 0)"
  by (subst within_guarantee_period.simps) simp

lemma wgp_Suc:
  "within_guarantee_period p (Suc t) =
     (if within_guarantee_period p t = 0 then 0
      else (if duration_IF p + int (Suc t) < initial_guarantee_term p then 1 else 0))"
  by (subst within_guarantee_period.simps) simp

lemma wgp_closed:
  "within_guarantee_period p t =
     (if duration_IF p + int t < initial_guarantee_term p then 1 else 0)"
  by (induction t) (auto simp: wgp_0 wgp_Suc)

text \<open>
  C3. The guarantee flag is 0 or 1 in every month, and 0 is absorbing: a month with flag 0
  is followed by a month with flag 0.
\<close>

theorem within_guarantee_period_absorbing:
  "within_guarantee_period p t \<in> {0, 1} \<and>
   (within_guarantee_period p t = 0 \<longrightarrow> within_guarantee_period p (t + 1) = 0)"
proof
  show "within_guarantee_period p t \<in> {0, 1}"
    by (cases t) (simp_all add: wgp_0 wgp_Suc)
  show "within_guarantee_period p t = 0 \<longrightarrow> within_guarantee_period p (t + 1) = 0"
    by (simp add: wgp_Suc)
qed

theorem within_guarantee_period_absorbing_witness:
  "within_guarantee_period example_policy 23 = 1 \<and>
   within_guarantee_period example_policy 24 = 0 \<and>
   within_guarantee_period example_policy 25 = 0"
  using within_guarantee_period_absorbing [of example_policy 24]
  by (simp add: eval_nat_numeral wgp_0 wgp_Suc example_policy_def)

text \<open>
  C7. In every month \<open>t\<close> of the horizon \<open>0 .. T\<close> the precomputed array holds the value
  of the scalar recurrence.
\<close>

theorem within_guarantee_period_array_matches:
  "t \<le> T \<Longrightarrow> within_guarantee_period_array p T ! t = within_guarantee_period p t"
  by (simp add: within_guarantee_period_array_def wgp_closed nth_map del: upt_Suc)

theorem within_guarantee_period_array_matches_witness:
  "(24::nat) \<le> 30 \<and>
   within_guarantee_period_array example_policy 30 ! 24 = 0 \<and>
   within_guarantee_period example_policy 24 = 0 \<and>
   within_guarantee_period_array example_policy 30 ! 23 = 1 \<and>
   within_guarantee_period example_policy 23 = 1"
  using within_guarantee_period_array_matches [of 24 30 example_policy]
    within_guarantee_period_array_matches [of 23 30 example_policy]
  by (simp add: eval_nat_numeral wgp_0 wgp_Suc example_policy_def)

section \<open>Annuity payments\<close>

lemma is_payment_month_iff:
  "is_payment_month p t = Inr b \<longleftrightarrow>
     annuity_payment_frequency p \<noteq> 0 \<and> 12 div annuity_payment_frequency p \<noteq> 0 \<and>
     b = ((duration_IF p + int t) mod (12 div annuity_payment_frequency p) = 0)"
  by (auto simp: is_payment_month_def payment_interval_def py_floordiv_def py_mod_def)

text \<open>
  C4. In a month \<open>t\<close> where \<open>(duration_IF + t) mod (12 div frequency)\<close> is defined and
  not 0, the payment per policy is 0. The interval is the integer quotient; the remainder
  is defined when the frequency and the interval are not 0.
\<close>

theorem annuity_payment_zero_off_payment_month:
  "annuity_payment_frequency p \<noteq> 0 \<Longrightarrow> 12 div annuity_payment_frequency p \<noteq> 0 \<Longrightarrow>
   (duration_IF p + int t) mod (12 div annuity_payment_frequency p) \<noteq> 0 \<Longrightarrow>
   annuity_payment_per_policy p a t = Inr 0"
proof -
  assume "annuity_payment_frequency p \<noteq> 0" "12 div annuity_payment_frequency p \<noteq> 0"
    "(duration_IF p + int t) mod (12 div annuity_payment_frequency p) \<noteq> 0"
  then have "is_payment_month p t = Inr False" by (simp add: is_payment_month_iff)
  then show ?thesis by (subst annuity_payment_per_policy.simps) simp
qed

theorem annuity_payment_zero_off_payment_month_witness:
  "annuity_payment_frequency example_policy \<noteq> 0 \<and>
   12 div annuity_payment_frequency example_policy \<noteq> 0 \<and>
   (duration_IF example_policy + int 5) mod (12 div annuity_payment_frequency example_policy) \<noteq> 0 \<and>
   annuity_payment_per_policy example_policy example_assumption 5 = Inr 0"
  using annuity_payment_zero_off_payment_month [of example_policy 5 example_assumption]
  by (simp add: example_policy_def)

text \<open>
  C6 (amended). In every payment month, an escalation type other than 0 (none), 1 (fixed)
  and 2 (inflation-linked) raises the unsupported-configuration error, which carries the
  offending value. The source tests the payment month first.
\<close>

theorem unsupported_escalation_type_raises:
  "escalation_type p \<notin> {0, 1, 2} \<Longrightarrow> is_payment_month p t = Inr True \<Longrightarrow>
   annuity_payment_per_policy p a t = Inl (ValueError (escalation_type p))"
  by (subst annuity_payment_per_policy.simps) simp

theorem unsupported_escalation_type_raises_witness:
  "escalation_type (example_policy\<lparr>escalation_type := 3\<rparr>) \<notin> {0, 1, 2} \<and>
   is_payment_month (example_policy\<lparr>escalation_type := 3\<rparr>) 0 = Inr True \<and>
   annuity_payment_per_policy (example_policy\<lparr>escalation_type := 3\<rparr>) example_assumption 0
     = Inl (ValueError 3)"
  using unsupported_escalation_type_raises
    [of "example_policy\<lparr>escalation_type := 3\<rparr>" 0 example_assumption]
  by (simp add: example_policy_def is_payment_month_iff)

text \<open>
  With escalation type 3 on an annual policy valued at commencement, month 1 is not a
  payment month and the payment is 0: no error is raised there.
\<close>

theorem unsupported_escalation_type_raises_counterexample:
  "escalation_type (example_policy\<lparr>escalation_type := 3\<rparr>) \<notin> {0, 1, 2} \<and>
   annuity_payment_per_policy (example_policy\<lparr>escalation_type := 3\<rparr>) example_assumption 1
     = Inr 0"
  by (simp add: annuity_payment_per_policy.simps example_policy_def is_payment_month_def
    payment_interval_def py_floordiv_def py_mod_def)

lemma interval_dvd_12:
  fixes f :: int
  assumes "f \<noteq> 0" "12 div f \<noteq> 0"
  shows "12 div f dvd 12"
proof -
  consider "12 < f" | "f < - 12" | "- 12 \<le> f \<and> f \<le> 12" by linarith
  then show ?thesis
  proof cases
    case 1
    then have "12 div f = 0" by (simp add: div_pos_pos_trivial)
    with assms show ?thesis by simp
  next
    case 2
    then have "12 div f = - 1" by (simp add: div_pos_neg_trivial)
    then show ?thesis by simp
  next
    case 3
    with assms(1) have
      "f = - 12 \<or> f = - 11 \<or> f = - 10 \<or> f = - 9 \<or> f = - 8 \<or> f = - 7 \<or> f = - 6 \<or>
       f = - 5 \<or> f = - 4 \<or> f = - 3 \<or> f = - 2 \<or> f = - 1 \<or> f = 1 \<or> f = 2 \<or> f = 3 \<or>
       f = 4 \<or> f = 5 \<or> f = 6 \<or> f = 7 \<or> f = 8 \<or> f = 9 \<or> f = 10 \<or> f = 11 \<or> f = 12"
      by presburger
    then show ?thesis by (elim disjE) simp_all
  qed
qed

lemma payment_month_back:
  assumes "is_payment_month p t = Inr True" "12 \<le> t"
  shows "is_payment_month p (t - 12) = Inr True"
proof -
  let ?k = "12 div annuity_payment_frequency p"
  from assms(1) have f: "annuity_payment_frequency p \<noteq> 0" "?k \<noteq> 0"
    and m: "(duration_IF p + int t) mod ?k = 0"
    by (simp_all add: is_payment_month_iff)
  have "?k dvd 12" using f by (rule interval_dvd_12)
  moreover have "?k dvd duration_IF p + int t" using m by (simp add: mod_eq_0_iff_dvd)
  ultimately have d: "?k dvd duration_IF p + int t - 12" by (rule dvd_diff [rotated])
  have eq: "duration_IF p + int (t - 12) = duration_IF p + int t - 12"
    using assms(2) by simp
  have "?k dvd duration_IF p + int (t - 12)" unfolding eq by (fact d)
  then have "(duration_IF p + int (t - 12)) mod ?k = 0" by (simp only: mod_eq_0_iff_dvd)
  with f show ?thesis by (simp add: is_payment_month_iff)
qed

lemma fixed_payment_base:
  assumes "escalation_type p = 1" "is_payment_month p t = Inr True" "t < 12"
  shows "annuity_payment_per_policy p a t =
     Inr (initial_annuity p / real_of_int (annuity_payment_frequency p))"
proof -
  have "annuity_payment_frequency p \<noteq> 0"
    using assms(2) by (simp add: is_payment_month_iff)
  with assms show ?thesis
    by (subst annuity_payment_per_policy.simps)
       (simp add: initial_annuity_per_payment_period_def py_truediv_def)
qed

lemma fixed_payment_rec:
  "escalation_type p = 1 \<Longrightarrow> is_payment_month p t = Inr True \<Longrightarrow> 12 \<le> t \<Longrightarrow>
   annuity_payment_per_policy p a t =
     (case annuity_payment_per_policy p a (t - 12) of
        Inl e \<Rightarrow> Inl e
      | Inr previous_payment \<Rightarrow> Inr (previous_payment * (1 + escalation_rate p)))"
  by (subst annuity_payment_per_policy.simps) simp

lemma fixed_payment_returns:
  "escalation_type p = 1 \<Longrightarrow> is_payment_month p t = Inr True \<Longrightarrow>
   \<exists>v. annuity_payment_per_policy p a t = Inr v"
proof (induction t rule: less_induct)
  case (less t)
  show ?case
  proof (cases "t < 12")
    case True
    with less.prems show ?thesis by (simp add: fixed_payment_base)
  next
    case False
    then have "is_payment_month p (t - 12) = Inr True"
      using less.prems payment_month_back by simp
    then obtain v where "annuity_payment_per_policy p a (t - 12) = Inr v"
      using less.IH [of "t - 12"] less.prems False by auto
    with less.prems False show ?thesis by (simp add: fixed_payment_rec)
  qed
qed

text \<open>
  C5. Under fixed escalation, a payment month \<open>t < 12\<close> pays the initial amount per
  period, and a payment month \<open>t \<ge> 12\<close> pays the amount of month \<open>t - 12\<close>, which is
  returned, times \<open>1 + escalation_rate\<close>. With a rate of 3 percent, 1200 a year paid
  annually and no elapsed duration, month 12 pays 1236.
\<close>

theorem fixed_escalation_compounds:
  "escalation_type p = 1 \<longrightarrow>
     (is_payment_month p t = Inr True \<longrightarrow>
        (t < 12 \<longrightarrow>
           annuity_payment_per_policy p a t =
             Inr (initial_annuity p / real_of_int (annuity_payment_frequency p))) \<and>
        (12 \<le> t \<longrightarrow>
           (\<exists>prev. annuity_payment_per_policy p a (t - 12) = Inr prev \<and>
                   annuity_payment_per_policy p a t = Inr (prev * (1 + escalation_rate p))))) \<and>
     (escalation_rate p = 3 / 100 \<and> initial_annuity p = 1200 \<and>
      annuity_payment_frequency p = 1 \<and> duration_IF p = 0 \<longrightarrow>
        annuity_payment_per_policy p a 12 = Inr 1236)"
proof (intro impI conjI)
  assume e: "escalation_type p = 1" and m: "is_payment_month p t = Inr True"
  { assume "t < 12"
    with e m show "annuity_payment_per_policy p a t =
        Inr (initial_annuity p / real_of_int (annuity_payment_frequency p))"
      by (rule fixed_payment_base) }
  { assume t: "12 \<le> t"
    with m have "is_payment_month p (t - 12) = Inr True" by (rule payment_month_back)
    with e obtain v where "annuity_payment_per_policy p a (t - 12) = Inr v"
      using fixed_payment_returns by blast
    with e m t show "\<exists>prev. annuity_payment_per_policy p a (t - 12) = Inr prev \<and>
        annuity_payment_per_policy p a t = Inr (prev * (1 + escalation_rate p))"
      by (simp add: fixed_payment_rec) }
next
  assume e: "escalation_type p = 1"
    and s: "escalation_rate p = 3 / 100 \<and> initial_annuity p = 1200 \<and>
      annuity_payment_frequency p = 1 \<and> duration_IF p = 0"
  then have m: "is_payment_month p 0 = Inr True" "is_payment_month p 12 = Inr True"
    by (simp_all add: is_payment_month_iff)
  have "annuity_payment_per_policy p a 0 = Inr 1200"
    using e s m by (simp add: fixed_payment_base)
  then show "annuity_payment_per_policy p a 12 = Inr 1236"
    using e s m by (simp add: fixed_payment_rec)
qed

theorem fixed_escalation_compounds_witness:
  "escalation_type example_policy = 1 \<and>
   is_payment_month example_policy 12 = Inr True \<and>
   annuity_payment_per_policy example_policy example_assumption 0 = Inr 1200 \<and>
   annuity_payment_per_policy example_policy example_assumption 12 = Inr 1236"
  using fixed_escalation_compounds [of example_policy 12 example_assumption]
  by (simp add: annuity_payment_per_policy.simps example_policy_def is_payment_month_def
    payment_interval_def py_floordiv_def py_mod_def initial_annuity_per_payment_period_def
    py_truediv_def)

section \<open>Present values\<close>

lemma collect_length: "collect xs = Inr vs \<Longrightarrow> length vs = length xs"
  by (induction xs arbitrary: vs) (auto split: sum.splits)

lemma series_length: "series T f = Inr vs \<Longrightarrow> length vs = T + 1"
  by (auto simp: series_def dest: collect_length)

lemma discount_length: "length (discount cf df) = length cf"
  by (simp add: discount_def)

lemma EPV_annuity_benefit_length: "EPV_annuity_benefit p a T = Inr xs \<Longrightarrow> length xs = T + 1"
  by (auto simp: EPV_annuity_benefit_def discount_length split: sum.splits dest: series_length)

lemma EPV_renewal_expenses_length: "EPV_renewal_expenses p a T = Inr xs \<Longrightarrow> length xs = T + 1"
  by (auto simp: EPV_renewal_expenses_def discount_length split: sum.splits dest: series_length)

lemma EPV_investment_expenses_length:
  "EPV_investment_expenses p a T = Inr xs \<Longrightarrow> length xs = T + 1"
  by (auto simp: EPV_investment_expenses_def discount_length split: sum.splits dest: series_length)

lemma array_add_length: "length xs = length ys \<Longrightarrow> length (array_add xs ys) = length xs"
  by (simp add: array_add_def)

lemma array_add_nth:
  "length xs = length ys \<Longrightarrow> t < length xs \<Longrightarrow> array_add xs ys ! t = xs ! t + ys ! t"
  by (simp add: array_add_def)

lemma EPV_total_expenses_parts:
  assumes "EPV_total_expenses p a T = Inr E"
  shows "\<exists>R I. EPV_renewal_expenses p a T = Inr R \<and> EPV_investment_expenses p a T = Inr I \<and>
           length E = T + 1 \<and> (\<forall>t\<le>T. E ! t = R ! t + I ! t)"
proof -
  from assms obtain R I where R: "EPV_renewal_expenses p a T = Inr R"
    and I: "EPV_investment_expenses p a T = Inr I" and E: "E = array_add R I"
    by (auto simp: EPV_total_expenses_def split: sum.splits)
  have l: "length R = T + 1" "length I = T + 1"
    using R I by (simp_all add: EPV_renewal_expenses_length EPV_investment_expenses_length)
  then have "\<forall>t\<le>T. E ! t = R ! t + I ! t" by (simp add: E array_add_nth)
  moreover have "length E = T + 1" using l by (simp add: E array_add_length)
  ultimately show ?thesis using R I by simp
qed

lemma EPV_liability_parts:
  assumes "EPV_liability p a T = Inr L"
  shows "\<exists>B E. EPV_annuity_benefit p a T = Inr B \<and> EPV_total_expenses p a T = Inr E \<and>
           length L = T + 1 \<and> (\<forall>t\<le>T. L ! t = B ! t + E ! t)"
proof -
  from assms obtain B E where B: "EPV_annuity_benefit p a T = Inr B"
    and E: "EPV_total_expenses p a T = Inr E" and L: "L = array_add B E"
    by (auto simp: EPV_liability_def split: sum.splits)
  have l: "length B = T + 1" "length E = T + 1"
    using B EPV_total_expenses_parts [OF E] by (auto simp: EPV_annuity_benefit_length)
  then have "\<forall>t\<le>T. L ! t = B ! t + E ! t" by (simp add: L array_add_nth)
  moreover have "length L = T + 1" using l by (simp add: L array_add_length)
  ultimately show ?thesis using B E by simp
qed

lemma series_0: "series 0 f = (case f 0 of Inl e \<Rightarrow> Inl e | Inr v \<Rightarrow> Inr [v])"
  by (simp add: series_def split: sum.splits)

lemma ex_discount_rate_0: "discount_rate example_assumption 0 = Inr [1]"
  by (simp add: discount_rate_def series_0 get_value_def pow_twelfth_def example_assumption_def)

lemma discount_single: "discount [c] [d] = [c / d]"
  by (simp add: discount_def)

lemma ex_app_0: "annuity_payment_per_policy example_policy example_assumption 0 = Inr 1200"
  by (simp add: annuity_payment_per_policy.simps example_policy_def is_payment_month_def
    payment_interval_def py_floordiv_def py_mod_def initial_annuity_per_payment_period_def
    py_truediv_def)

lemma ex_renewal_0: "renewal_expense_per_policy example_policy example_assumption 0 = Inr 10"
  by (simp add: renewal_expense_per_policy.simps example_policy_def example_assumption_def
    base_renewal_expense_def get_value_def)

lemma ex_guarantee_0: "within_guarantee_period example_policy 0 = 1"
  by (simp add: wgp_0 example_policy_def)

lemma ex_investment_expense: "investment_expense example_assumption = 1 / 100"
  by (simp add: example_assumption_def)

lemma ex_EPV_annuity_benefit_0:
  "EPV_annuity_benefit example_policy example_assumption 0 = Inr [1200]"
  by (simp add: EPV_annuity_benefit_def series_0 expected_annuity_payment_def ex_guarantee_0
    ex_app_0 ex_discount_rate_0 discount_single)

lemma ex_EPV_renewal_expenses_0:
  "EPV_renewal_expenses example_policy example_assumption 0 = Inr [10]"
  by (simp add: EPV_renewal_expenses_def series_0 expected_renewal_expense_payment_def
    ex_renewal_0 IF_0 ex_discount_rate_0 discount_single)

lemma ex_EPV_investment_expenses_0:
  "EPV_investment_expenses example_policy example_assumption 0 = Inr [121 / 10]"
  by (simp add: EPV_investment_expenses_def series_0 investment_expense_payment_def
    EPV_liability_gross_def ex_EPV_annuity_benefit_0 ex_EPV_renewal_expenses_0 array_add_def
    array_at_def ex_discount_rate_0 discount_single ex_investment_expense)

text \<open>
  C9. In every month \<open>t\<close> of the horizon, the total expenses are the renewal expenses
  plus the investment expenses, and the liability is the annuity benefit plus the total
  expenses, whenever the arrays are produced; the scalar liability is month 0 of the
  liability array, and fails exactly when that array does.
\<close>

theorem EPV_liability_decomposition:
  "(\<forall>E. EPV_total_expenses p a T = Inr E \<longrightarrow>
      (\<exists>R I. EPV_renewal_expenses p a T = Inr R \<and> EPV_investment_expenses p a T = Inr I \<and>
             (\<forall>t\<le>T. E ! t = R ! t + I ! t))) \<and>
   (\<forall>L. EPV_liability p a T = Inr L \<longrightarrow>
      (\<exists>B E. EPV_annuity_benefit p a T = Inr B \<and> EPV_total_expenses p a T = Inr E \<and>
             (\<forall>t\<le>T. L ! t = B ! t + E ! t))) \<and>
   liability p a T = (case EPV_liability p a T of Inl e \<Rightarrow> Inl e | Inr L \<Rightarrow> Inr (L ! 0))"
proof (intro conjI allI impI)
  fix E assume "EPV_total_expenses p a T = Inr E"
  from EPV_total_expenses_parts [OF this]
  show "\<exists>R I. EPV_renewal_expenses p a T = Inr R \<and> EPV_investment_expenses p a T = Inr I \<and>
             (\<forall>t\<le>T. E ! t = R ! t + I ! t)" by blast
next
  fix L assume "EPV_liability p a T = Inr L"
  from EPV_liability_parts [OF this]
  show "\<exists>B E. EPV_annuity_benefit p a T = Inr B \<and> EPV_total_expenses p a T = Inr E \<and>
             (\<forall>t\<le>T. L ! t = B ! t + E ! t)" by blast
next
  show "liability p a T = (case EPV_liability p a T of Inl e \<Rightarrow> Inl e | Inr L \<Rightarrow> Inr (L ! 0))"
  proof (cases "EPV_liability p a T")
    case (Inl e)
    then show ?thesis by (simp add: liability_def)
  next
    case (Inr L)
    with EPV_liability_parts [OF Inr] show ?thesis
      by (auto simp: liability_def array_at_def)
  qed
qed

theorem EPV_liability_decomposition_witness:
  "EPV_renewal_expenses example_policy example_assumption 0 = Inr [10] \<and>
   EPV_investment_expenses example_policy example_assumption 0 = Inr [121 / 10] \<and>
   EPV_total_expenses example_policy example_assumption 0 = Inr [221 / 10] \<and>
   EPV_annuity_benefit example_policy example_assumption 0 = Inr [1200] \<and>
   EPV_liability example_policy example_assumption 0 = Inr [12221 / 10] \<and>
   liability example_policy example_assumption 0 = Inr (12221 / 10)"
proof -
  have E: "EPV_total_expenses example_policy example_assumption 0 = Inr [221 / 10]"
    by (simp add: EPV_total_expenses_def ex_EPV_renewal_expenses_0
      ex_EPV_investment_expenses_0 array_add_def)
  have L: "EPV_liability example_policy example_assumption 0 = Inr [12221 / 10]"
    by (simp add: EPV_liability_def ex_EPV_annuity_benefit_0 E array_add_def)
  show ?thesis
    using EPV_liability_decomposition [of example_policy example_assumption 0]
    by (simp add: E L ex_EPV_renewal_expenses_0 ex_EPV_investment_expenses_0
      ex_EPV_annuity_benefit_0)
qed

end
